theory Spec2Isabelle
  imports Complex_Main "HOL-Library.AList"
begin

section \<open>Python values\<close>

text \<open>
  Python floats are modelled as the reals: every arithmetic operation is exact, and
  \<open>math.exp\<close>, \<open>math.log\<close>, \<open>math.ceil\<close> and \<open>math.floor\<close> are
  \<^const>\<open>exp\<close>, \<^const>\<open>ln\<close>, \<^const>\<open>ceiling\<close> and \<^const>\<open>floor\<close>.
  Python integers are \<^typ>\<open>int\<close>. An exception is a value of \<open>py_error\<close>; a function
  that can raise returns \<open>py_error + 'a\<close>, with \<open>Inl\<close> for the exception.
\<close>

datatype py_error = ValueError string | ZeroDivisionError

text \<open>
  A \<open>dict\<close> is an association list in insertion order; its keys are pairwise distinct.
  \<open>dict_get d k dflt\<close> is \<open>d.get(k, dflt)\<close> and \<open>dict_set d k v\<close> is \<open>d[k] = v\<close>
  (an existing key keeps its place, a new one is appended).
\<close>

type_synonym ('k, 'v) pydict = "('k \<times> 'v) list"

definition dict_keys :: "('k, 'v) pydict \<Rightarrow> 'k list" where
  "dict_keys d = map fst d"

definition dict_get :: "('k, 'v) pydict \<Rightarrow> 'k \<Rightarrow> 'v \<Rightarrow> 'v" where
  "dict_get d k dflt = (case map_of d k of None \<Rightarrow> dflt | Some v \<Rightarrow> v)"

definition dict_set :: "('k, 'v) pydict \<Rightarrow> 'k \<Rightarrow> 'v \<Rightarrow> ('k, 'v) pydict" where
  "dict_set d k v = AList.update k v d"

text \<open>
  \<open>d[k]\<close> for a key \<open>k\<close> that the surrounding loop draws from \<open>d\<close> itself, so that the
  lookup never misses (on a \<open>defaultdict(lambda: 0)\<close> a missing key reads as 0).
\<close>

definition dict_item :: "('k, real) pydict \<Rightarrow> 'k \<Rightarrow> real" where
  "dict_item d k = dict_get d k 0"

section \<open>common.py: the list and dictionary codec\<close>

text \<open>
  \<open>dictionary_to_list\<close>: \<open>min\<close> and \<open>max\<close> of an empty dictionary raise
  \<open>ValueError\<close>.
\<close>

definition dictionary_to_list :: "(int, real) pydict \<Rightarrow> py_error + (int \<times> real list)" where
  "dictionary_to_list input_dictionary =
     (if input_dictionary = [] then Inl (ValueError ''min() arg is an empty sequence'')
      else
        let offset = Min (set (dict_keys input_dictionary));
            max_val = Max (set (dict_keys input_dictionary));
            result_list = map (\<lambda>i. dict_get input_dictionary i 0) [offset..max_val]
        in Inr (offset, result_list))"

text \<open>
  The first loop of \<open>list_to_dictionary\<close>, from the state
  \<open>(lower_truncation_index, lower_truncation_mass)\<close>; it returns the index at which the
  loop stops.
\<close>

function lower_truncation_loop :: "real list \<Rightarrow> real \<Rightarrow> nat \<Rightarrow> real \<Rightarrow> nat" where
  "lower_truncation_loop input_list tail_mass_truncation lower_truncation_index lower_truncation_mass =
     (if lower_truncation_index < length input_list then
        (if lower_truncation_mass + input_list ! lower_truncation_index > tail_mass_truncation / 2
         then lower_truncation_index
         else lower_truncation_loop input_list tail_mass_truncation (lower_truncation_index + 1)
                (lower_truncation_mass + input_list ! lower_truncation_index))
      else lower_truncation_index)"
  by pat_completeness auto
termination
  by (relation "measure (\<lambda>(xs, t, i, m). length xs - i)") auto

text \<open>The second loop; the index runs down to \<open>-1\<close>, so it is an \<^typ>\<open>int\<close>.\<close>

function upper_truncation_loop :: "real list \<Rightarrow> real \<Rightarrow> int \<Rightarrow> real \<Rightarrow> int" where
  "upper_truncation_loop input_list tail_mass_truncation upper_truncation_index upper_truncation_mass =
     (if upper_truncation_index \<ge> 0 then
        (if upper_truncation_mass + input_list ! nat upper_truncation_index > tail_mass_truncation / 2
         then upper_truncation_index
         else upper_truncation_loop input_list tail_mass_truncation (upper_truncation_index - 1)
                (upper_truncation_mass + input_list ! nat upper_truncation_index))
      else upper_truncation_index)"
  by pat_completeness auto
termination
  by (relation "measure (\<lambda>(xs, t, i, m). nat (i + 1))") auto

declare lower_truncation_loop.simps [simp del] upper_truncation_loop.simps [simp del]

definition list_to_dictionary :: "real list \<Rightarrow> int \<Rightarrow> real \<Rightarrow> (int, real) pydict" where
  "list_to_dictionary input_list offset tail_mass_truncation =
     (let lower_truncation_index = lower_truncation_loop input_list tail_mass_truncation 0 0;
          upper_truncation_index =
            upper_truncation_loop input_list tail_mass_truncation (int (length input_list) - 1) 0
      in fold (\<lambda>i result_dictionary.
                 if input_list ! nat i > 0
                 then dict_set result_dictionary (i + offset) (input_list ! nat i)
                 else result_dictionary)
           [int lower_truncation_index..upper_truncation_index] [])"

section \<open>common.py: convolution\<close>

text \<open>
  \<open>scipy.signal.fftconvolve(in1, in2)\<close> on two nonempty one-dimensional inputs is, in
  exact arithmetic, their full linear convolution, of length
  \<open>len(in1) + len(in2) - 1\<close>.
\<close>

definition fftconvolve :: "real list \<Rightarrow> real list \<Rightarrow> real list" where
  "fftconvolve in1 in2 =
     map (\<lambda>k. \<Sum>j\<leftarrow>[0..<length in1].
                 if j \<le> k \<and> k - j < length in2 then in1 ! j * in2 ! (k - j) else 0)
       [0..<length in1 + length in2 - 1]"

definition convolve_dictionary ::
    "(int, real) pydict \<Rightarrow> (int, real) pydict \<Rightarrow> real \<Rightarrow> py_error + (int, real) pydict" where
  "convolve_dictionary dictionary1 dictionary2 tail_mass_truncation =
     (case dictionary_to_list dictionary1 of
        Inl e \<Rightarrow> Inl e
      | Inr (min1, list1) \<Rightarrow>
          (case dictionary_to_list dictionary2 of
             Inl e \<Rightarrow> Inl e
           | Inr (min2, list2) \<Rightarrow>
               Inr (list_to_dictionary (fftconvolve list1 list2) (min1 + min2)
                      tail_mass_truncation)))"

section \<open>privacy_loss_distribution.py\<close>

record PrivacyLossDistribution =
  rounded_probability_mass_function :: "(int, real) pydict"
  value_discretization_interval :: real
  infinity_mass :: real
  pessimistic_estimate :: bool

definition identity :: "real \<Rightarrow> PrivacyLossDistribution" where
  "identity vdi =
     \<lparr>rounded_probability_mass_function = [(0, 1)],
      value_discretization_interval = vdi,
      infinity_mass = 0,
      pessimistic_estimate = True\<rparr>"

definition get_delta_for_epsilon :: "PrivacyLossDistribution \<Rightarrow> real \<Rightarrow> real" where
  "get_delta_for_epsilon self epsilon =
     fold (\<lambda>i divergence.
             let val = of_int i * value_discretization_interval self in
             if val > epsilon \<and> dict_item (rounded_probability_mass_function self) i > 0
             then divergence +
                    (1 - exp (epsilon - val)) * dict_item (rounded_probability_mass_function self) i
             else divergence)
       (dict_keys (rounded_probability_mass_function self)) (infinity_mass self)"

text \<open>The default of \<open>tail_mass_truncation\<close> in \<open>compose\<close>, \<open>1e-15\<close>.\<close>

definition default_tail_mass_truncation :: real where
  "default_tail_mass_truncation = 1 / 10 ^ 15"

definition compose ::
    "PrivacyLossDistribution \<Rightarrow> PrivacyLossDistribution \<Rightarrow> real \<Rightarrow> py_error + PrivacyLossDistribution" where
  "compose self privacy_loss_distribution tail_mass_truncation =
     (if value_discretization_interval self \<noteq> value_discretization_interval privacy_loss_distribution
      then Inl (ValueError ''Discretization intervals are different'')
      else if pessimistic_estimate self \<noteq> pessimistic_estimate privacy_loss_distribution
      then Inl (ValueError ''Estimation types are different'')
      else
        (case convolve_dictionary (rounded_probability_mass_function self)
                (rounded_probability_mass_function privacy_loss_distribution) tail_mass_truncation of
           Inl e \<Rightarrow> Inl e
         | Inr new_rounded_probability_mass_function \<Rightarrow>
             let new_infinity_mass =
                   infinity_mass self + infinity_mass privacy_loss_distribution
                   - infinity_mass self * infinity_mass privacy_loss_distribution;
                 new_infinity_mass =
                   (if pessimistic_estimate self then new_infinity_mass + tail_mass_truncation
                    else new_infinity_mass)
             in Inr \<lparr>rounded_probability_mass_function = new_rounded_probability_mass_function,
                     value_discretization_interval = value_discretization_interval self,
                     infinity_mass = new_infinity_mass,
                     pessimistic_estimate = pessimistic_estimate self\<rparr>))"




section \<open>common.py: self-convolution\<close>

text \<open>
  \<open>scipy.fft.next_fast_len(target)\<close> is the least integer that is at least \<open>target\<close>
  and has no prime factor other than 2, 3, 5, 7 and 11. A power of two lies between
  \<open>target\<close> and \<open>2 * target\<close>, so the search is bounded.
\<close>

function strip_factor :: "nat \<Rightarrow> nat \<Rightarrow> nat" where
  "strip_factor p m = (if 1 < p \<and> 0 < m \<and> p dvd m then strip_factor p (m div p) else m)"
  by pat_completeness auto
termination
  by (relation "measure (\<lambda>(p, m). m)") auto

declare strip_factor.simps [simp del]

definition is_fast_len :: "nat \<Rightarrow> bool" where
  "is_fast_len m =
     (strip_factor 2 (strip_factor 3 (strip_factor 5 (strip_factor 7 (strip_factor 11 m)))) = 1)"

definition next_fast_len :: "nat \<Rightarrow> nat" where
  "next_fast_len target =
     (case find is_fast_len [target..<2 * target + 1] of Some m \<Rightarrow> m | None \<Rightarrow> target)"

text \<open>
  \<open>fft.fft(input_list, fast_len)\<close> crops the input to \<open>fast_len\<close> entries or pads it
  with zeros (\<open>resize\<close>). By the convolution theorem,
  \<open>fft.ifft(fft.fft(x, N) ** n)\<close> is, in exact arithmetic, the \<open>n\<close>-fold cyclic
  convolution modulo \<open>N\<close> of the resized input; it is real, so \<open>numpy.real\<close> leaves it
  as it is. \<open>fft.fft\<close> raises \<open>ValueError\<close> for a length below 1, and so does
  \<open>next_fast_len\<close> for a negative target.
\<close>

definition resize :: "nat \<Rightarrow> real list \<Rightarrow> real list" where
  "resize n xs = take n xs @ replicate (n - length xs) 0"

definition cyclic_convolve :: "nat \<Rightarrow> real list \<Rightarrow> real list \<Rightarrow> real list" where
  "cyclic_convolve n xs ys =
     map (\<lambda>k. \<Sum>j\<leftarrow>[0..<n]. xs ! j * ys ! ((k + n - j) mod n)) [0..<n]"

fun cyclic_power :: "nat \<Rightarrow> real list \<Rightarrow> nat \<Rightarrow> real list" where
  "cyclic_power n xs 0 = resize n [1]"
| "cyclic_power n xs (Suc k) = cyclic_convolve n xs (cyclic_power n xs k)"

definition self_convolve :: "real list \<Rightarrow> int \<Rightarrow> py_error + real list" where
  "self_convolve input_list num_times =
     (let output_len = num_times * int (length input_list) - 1 in
      if output_len < 1 then Inl (ValueError ''invalid number of data points'')
      else
        let fast_len = next_fast_len (nat output_len)
        in Inr (take (nat output_len)
                  (cyclic_power fast_len (resize fast_len input_list) (nat num_times))))"



section \<open>privacy_loss_distribution.py: the constructors\<close>











section \<open>common.py: the monotone function inverter\<close>







section \<open>privacy_loss_distribution.py: from_privacy_parameters\<close>

text \<open>
  \<open>DifferentialPrivacyParameters(epsilon, delta)\<close> validates its fields in
  \<open>__post_init__\<close>.
\<close>

record DifferentialPrivacyParameters =
  epsilon :: real
  delta :: real

definition make_DifferentialPrivacyParameters ::
    "real \<Rightarrow> real \<Rightarrow> py_error + DifferentialPrivacyParameters" where
  "make_DifferentialPrivacyParameters eps dlt =
     (if eps < 0 then Inl (ValueError ''epsilon should be positive'')
      else if dlt < 0 \<or> dlt > 1 then Inl (ValueError ''delta should be between 0 and 1'')
      else Inr \<lparr>epsilon = eps, delta = dlt\<rparr>)"

text \<open>
  The dictionary display \<open>{k1: v1, k2: v2}\<close> stores \<open>k1\<close> and then \<open>k2\<close>, so that equal
  keys leave the second value.
\<close>

definition from_privacy_parameters ::
    "DifferentialPrivacyParameters \<Rightarrow> real \<Rightarrow> py_error + PrivacyLossDistribution" where
  "from_privacy_parameters privacy_parameters vdi =
     (if vdi = 0 then Inl ZeroDivisionError
      else
        Inr \<lparr>rounded_probability_mass_function =
               dict_set
                 [(\<lceil>epsilon privacy_parameters / vdi\<rceil>,
                   (1 - delta privacy_parameters) / (1 + exp (- epsilon privacy_parameters)))]
                 \<lceil>- epsilon privacy_parameters / vdi\<rceil>
                 ((1 - delta privacy_parameters) / (1 + exp (epsilon privacy_parameters))),
             value_discretization_interval = vdi,
             infinity_mass = delta privacy_parameters,
             pessimistic_estimate = True\<rparr>)"

section \<open>Predicates of the claims\<close>



section \<open>Sums and folds\<close>

lemma fold_add_sum_list:
  "fold (\<lambda>i (acc::real). acc + g i) ks a = a + sum_list (map g ks)"
  by (induction ks arbitrary: a) (simp_all add: algebra_simps)

lemma fold_cong_set:
  "(\<And>i acc. i \<in> set ks \<Longrightarrow> f i acc = h i acc) \<Longrightarrow> fold f ks a = fold h ks a"
  by (induction ks arbitrary: a) simp_all

lemma get_delta_sum_list:
  assumes "\<forall>i\<in>set (dict_keys (rounded_probability_mass_function p)).
             0 \<le> dict_item (rounded_probability_mass_function p) i"
  shows "get_delta_for_epsilon p eps =
           infinity_mass p +
           (\<Sum>i\<leftarrow>dict_keys (rounded_probability_mass_function p).
              if of_int i * value_discretization_interval p > eps
              then dict_item (rounded_probability_mass_function p) i
                     * (1 - exp (eps - of_int i * value_discretization_interval p))
              else 0)"
proof -
  let ?ks = "dict_keys (rounded_probability_mass_function p)"
  let ?g = "\<lambda>i. if of_int i * value_discretization_interval p > eps
              then dict_item (rounded_probability_mass_function p) i
                     * (1 - exp (eps - of_int i * value_discretization_interval p))
              else 0"
  have "get_delta_for_epsilon p eps = fold (\<lambda>i acc. acc + ?g i) ?ks (infinity_mass p)"
    unfolding get_delta_for_epsilon_def
  proof (rule fold_cong_set)
    fix i acc
    assume "i \<in> set ?ks"
    with assms have "0 \<le> dict_item (rounded_probability_mass_function p) i" by blast
    then show "(let val = real_of_int i * value_discretization_interval p
           in if eps < val \<and> 0 < dict_item (rounded_probability_mass_function p) i
              then acc + (1 - exp (eps - val)) * dict_item (rounded_probability_mass_function p) i
              else acc) = acc + ?g i"
      by (cases "dict_item (rounded_probability_mass_function p) i = 0") (auto simp: Let_def)
  qed
  then show ?thesis by (simp only: fold_add_sum_list)
qed

text \<open>
  Claim C1. For a distribution whose keys are distinct and whose stored masses are
  nonnegative, and for every real \<open>eps\<close>, \<open>get_delta_for_epsilon\<close> is \<open>infinity_mass\<close>
  plus the sum over the buckets \<open>i\<close> with \<open>i * value_discretization_interval > eps\<close> of
  \<open>mass(i) * (1 - exp (eps - i * value_discretization_interval))\<close>. Nothing is
  required of \<open>infinity_mass\<close>.
\<close>

theorem get_delta_for_epsilon_hockey_stick:
  assumes "distinct (dict_keys (rounded_probability_mass_function p))"
    and "\<forall>i\<in>set (dict_keys (rounded_probability_mass_function p)).
           0 \<le> dict_item (rounded_probability_mass_function p) i"
  shows "get_delta_for_epsilon p eps =
           infinity_mass p +
           (\<Sum>i\<in>{i \<in> set (dict_keys (rounded_probability_mass_function p)).
                   of_int i * value_discretization_interval p > eps}.
              dict_item (rounded_probability_mass_function p) i
                * (1 - exp (eps - of_int i * value_discretization_interval p)))"
proof -
  let ?ks = "dict_keys (rounded_probability_mass_function p)"
  have "get_delta_for_epsilon p eps =
           infinity_mass p +
           (\<Sum>i\<leftarrow>?ks.
              if of_int i * value_discretization_interval p > eps
              then dict_item (rounded_probability_mass_function p) i
                     * (1 - exp (eps - of_int i * value_discretization_interval p))
              else 0)"
    using assms(2) by (rule get_delta_sum_list)
  also have "\<dots> = infinity_mass p +
           (\<Sum>i\<in>set ?ks.
              if of_int i * value_discretization_interval p > eps
              then dict_item (rounded_probability_mass_function p) i
                     * (1 - exp (eps - of_int i * value_discretization_interval p))
              else 0)"
    using assms(1) by (simp add: sum_list_distinct_conv_sum_set)
  also have "\<dots> = infinity_mass p +
           (\<Sum>i\<in>{i \<in> set ?ks. of_int i * value_discretization_interval p > eps}.
              dict_item (rounded_probability_mass_function p) i
                * (1 - exp (eps - of_int i * value_discretization_interval p)))"
    by (simp add: sum.inter_filter)
  finally show ?thesis .
qed

text \<open>
  The theorem at the distribution \<open>{1: 1/2, -1: 1/4, 0: 0}\<close> with interval 1 and
  \<open>infinity_mass = 1/4\<close>, at \<open>eps = 0\<close>.
\<close>

theorem get_delta_for_epsilon_hockey_stick_witness:
  "get_delta_for_epsilon
     \<lparr>rounded_probability_mass_function = [(1, 1/2), (-1, 1/4), (0, 0)],
      value_discretization_interval = 1, infinity_mass = 1/4, pessimistic_estimate = True\<rparr> 0
   = 1/4 + 1/2 * (1 - exp (-1))"
proof -
  let ?p = "\<lparr>rounded_probability_mass_function = [(1, 1/2), (-1, 1/4), (0, 0)],
      value_discretization_interval = 1, infinity_mass = 1/4, pessimistic_estimate = True\<rparr>"
  have d: "distinct (dict_keys (rounded_probability_mass_function ?p))"
    by (simp add: dict_keys_def)
  have n: "\<forall>i\<in>set (dict_keys (rounded_probability_mass_function ?p)).
           0 \<le> dict_item (rounded_probability_mass_function ?p) i"
    by (simp add: dict_keys_def dict_item_def dict_get_def)
  have s: "{i \<in> set (dict_keys (rounded_probability_mass_function ?p)).
             of_int i * value_discretization_interval ?p > 0} = {1}"
    by (auto simp: dict_keys_def)
  have "get_delta_for_epsilon ?p 0 =
          infinity_mass ?p +
          (\<Sum>i\<in>{1}. dict_item (rounded_probability_mass_function ?p) i
                * (1 - exp (0 - of_int i * value_discretization_interval ?p)))"
    using get_delta_for_epsilon_hockey_stick [OF d n, of 0] by (simp only: s)
  then show ?thesis
    by (simp add: dict_item_def dict_get_def)
qed

section \<open>The codec: packing and unpacking\<close>

lemma update_fresh_append:
  "k \<notin> fst ` set al \<Longrightarrow> AList.update k v al = al @ [(k, v)]"
  by (induction al) auto

lemma fold_insert_positive:
  "distinct ks \<Longrightarrow> \<forall>k\<in>fst ` set acc. k - off \<notin> set ks \<Longrightarrow>
   fold (\<lambda>i result_dictionary.
           if (xs::real list) ! nat i > 0
           then dict_set result_dictionary (i + off) (xs ! nat i)
           else result_dictionary) ks acc
   = acc @ map (\<lambda>i. (i + off, xs ! nat i)) (filter (\<lambda>i. 0 < xs ! nat i) ks)"
proof (induction ks arbitrary: acc)
  case Nil
  then show ?case by simp
next
  case (Cons i ks)
  show ?case
  proof (cases "0 < xs ! nat i")
    case False
    with Cons show ?thesis by simp
  next
    case True
    have fresh: "i + off \<notin> fst ` set acc"
      using Cons.prems(2) by force
    have step: "dict_set acc (i + off) (xs ! nat i) = acc @ [(i + off, xs ! nat i)]"
      unfolding dict_set_def using fresh by (rule update_fresh_append)
    have "\<forall>k\<in>fst ` set (acc @ [(i + off, xs ! nat i)]). k - off \<notin> set ks"
      using Cons.prems by auto
    with Cons.IH [of "acc @ [(i + off, xs ! nat i)]"] Cons.prems(1) True step
    show ?thesis by simp
  qed
qed

lemma list_to_dictionary_filter:
  "list_to_dictionary xs off t =
     map (\<lambda>i. (i + off, xs ! nat i))
       (filter (\<lambda>i. 0 < xs ! nat i)
          [int (lower_truncation_loop xs t 0 0)..
             upper_truncation_loop xs t (int (length xs) - 1) 0])"
  unfolding list_to_dictionary_def Let_def
  by (subst fold_insert_positive) simp_all

lemma lower_truncation_loop_bounds:
  "i \<le> length xs \<Longrightarrow> m = sum_list (take i xs) \<Longrightarrow> m \<le> t / 2 \<Longrightarrow>
   i \<le> lower_truncation_loop xs t i m \<and> lower_truncation_loop xs t i m \<le> length xs \<and>
   sum_list (take (lower_truncation_loop xs t i m) xs) \<le> t / 2"
proof (induction xs t i m rule: lower_truncation_loop.induct)
  case (1 xs t i m)
  show ?case
  proof (cases "i < length xs \<and> \<not> m + xs ! i > t / 2")
    case True
    have "sum_list (take (i + 1) xs) = m + xs ! i"
      using True "1.prems"(2) by (simp add: take_Suc_conv_app_nth)
    with "1.IH" True have
      "i + 1 \<le> lower_truncation_loop xs t (i + 1) (m + xs ! i) \<and>
       lower_truncation_loop xs t (i + 1) (m + xs ! i) \<le> length xs \<and>
       sum_list (take (lower_truncation_loop xs t (i + 1) (m + xs ! i)) xs) \<le> t / 2"
      by simp
    moreover have "lower_truncation_loop xs t i m = lower_truncation_loop xs t (i + 1) (m + xs ! i)"
      using True by (subst lower_truncation_loop.simps) simp
    ultimately show ?thesis by simp
  next
    case False
    then have "lower_truncation_loop xs t i m = i"
      by (subst lower_truncation_loop.simps) auto
    with "1.prems" show ?thesis by simp
  qed
qed

lemma upper_truncation_loop_bounds:
  "- 1 \<le> i \<Longrightarrow> i < int (length xs) \<Longrightarrow> m = sum_list (drop (nat (i + 1)) xs) \<Longrightarrow> m \<le> t / 2 \<Longrightarrow>
   - 1 \<le> upper_truncation_loop xs t i m \<and> upper_truncation_loop xs t i m \<le> i \<and>
   sum_list (drop (nat (upper_truncation_loop xs t i m + 1)) xs) \<le> t / 2"
proof (induction xs t i m rule: upper_truncation_loop.induct)
  case (1 xs t i m)
  show ?case
  proof (cases "0 \<le> i \<and> \<not> m + xs ! nat i > t / 2")
    case True
    have "nat i < length xs" using True "1.prems"(2) by linarith
    then have "drop (nat i) xs = xs ! nat i # drop (Suc (nat i)) xs"
      by (rule Cons_nth_drop_Suc [symmetric])
    moreover have "Suc (nat i) = nat (i + 1)" using True by linarith
    ultimately have "sum_list (drop (nat (i - 1 + 1)) xs) = m + xs ! nat i"
      using "1.prems"(3) by simp
    with "1.IH" True "1.prems"(2) have
      "- 1 \<le> upper_truncation_loop xs t (i - 1) (m + xs ! nat i) \<and>
       upper_truncation_loop xs t (i - 1) (m + xs ! nat i) \<le> i - 1 \<and>
       sum_list (drop (nat (upper_truncation_loop xs t (i - 1) (m + xs ! nat i) + 1)) xs) \<le> t / 2"
      by simp
    moreover have "upper_truncation_loop xs t i m = upper_truncation_loop xs t (i - 1) (m + xs ! nat i)"
      using True by (subst upper_truncation_loop.simps) simp
    ultimately show ?thesis by simp
  next
    case False
    then have "upper_truncation_loop xs t i m = i"
      by (subst upper_truncation_loop.simps) auto
    with "1.prems" show ?thesis by simp
  qed
qed

lemma list_to_dictionary_example:
  "list_to_dictionary [2 / 10, 5 / 10, 3 / 10] 1 (6 / 10) = [(2, 5 / 10)]"
  by (simp add: list_to_dictionary_def dict_set_def upto.simps
        lower_truncation_loop.simps upper_truncation_loop.simps)

lemma dictionary_to_list_nonempty:
  "d \<noteq> [] \<Longrightarrow>
   dictionary_to_list d =
     Inr (Min (set (dict_keys d)),
          map (\<lambda>i. dict_get d i 0) [Min (set (dict_keys d))..Max (set (dict_keys d))])"
  by (simp add: dictionary_to_list_def Let_def)

lemma dictionary_to_list_empty:
  "dictionary_to_list [] = Inl (ValueError ''min() arg is an empty sequence'')"
  by (simp add: dictionary_to_list_def)

lemma lower_truncation_loop_first:
  "xs \<noteq> [] \<Longrightarrow> t / 2 < xs ! 0 \<Longrightarrow> lower_truncation_loop xs t 0 0 = 0"
  by (subst lower_truncation_loop.simps) simp

lemma upper_truncation_loop_last:
  "xs \<noteq> [] \<Longrightarrow> t / 2 < xs ! (length xs - 1) \<Longrightarrow>
   upper_truncation_loop xs t (int (length xs) - 1) 0 = int (length xs) - 1"
proof -
  assume a: "xs \<noteq> []" "t / 2 < xs ! (length xs - 1)"
  then have "nat (int (length xs) - 1) = length xs - 1" by simp
  with a show ?thesis
    by (subst upper_truncation_loop.simps) (simp add: Suc_leI)
qed

lemma map_of_shifted_filter:
  "map_of (map (\<lambda>i. (i + off, f i)) (filter P ks)) (k::int) =
     (if k - off \<in> set ks \<and> P (k - off) then Some (f (k - off)) else None)"
  by (induction ks) (auto simp: algebra_simps)

lemma distinct_shifted_filter:
  "distinct ks \<Longrightarrow> distinct (dict_keys (map (\<lambda>i. (i + (off::int), f i)) (filter P ks)))"
  unfolding dict_keys_def by (induction ks) (auto simp: image_iff)

lemma dict_get_positive:
  "\<forall>(k, v)\<in>set d. 0 < v \<Longrightarrow> (0 < dict_get d k (0::real)) = (k \<in> fst ` set d)"
proof
  assume pos: "\<forall>(k, v)\<in>set d. 0 < v"
  show "0 < dict_get d k 0 \<Longrightarrow> k \<in> fst ` set d"
    by (cases "map_of d k") (auto simp: dict_get_def dest: map_of_SomeD intro: rev_image_eqI)
  assume "k \<in> fst ` set d"
  then obtain v where v: "map_of d k = Some v"
    by (cases "map_of d k") (auto simp: map_of_eq_None_iff)
  then have "(k, v) \<in> set d" by (rule map_of_SomeD)
  with pos have "0 < v" by auto
  with v show "0 < dict_get d k 0" by (simp add: dict_get_def)
qed

lemma unpack_pack:
  assumes ne: "d \<noteq> []"
    and pos: "\<forall>(k, v)\<in>set d. 0 < v"
    and lo: "t / 2 < dict_get d (Min (set (dict_keys d))) 0"
    and hi: "t / 2 < dict_get d (Max (set (dict_keys d))) 0"
    and xs: "xs = map (\<lambda>i. dict_get d i 0) [Min (set (dict_keys d))..Max (set (dict_keys d))]"
  shows "map_of (list_to_dictionary xs (Min (set (dict_keys d))) t) = map_of d"
    and "distinct (dict_keys (list_to_dictionary xs (Min (set (dict_keys d))) t))"
proof -
  let ?ks = "set (dict_keys d)"
  let ?mn = "Min ?ks" and ?mx = "Max ?ks"
  have fin: "finite ?ks" "?ks \<noteq> {}" using ne by (simp_all add: dict_keys_def)
  then have le: "?mn \<le> ?mx" by simp
  have len: "length xs = nat (?mx - ?mn + 1)" by (simp add: xs)
  then have xne: "xs \<noteq> []" using le by auto
  have nth: "xs ! nat i = dict_get d (?mn + i) 0" if "0 \<le> i" "i \<le> ?mx - ?mn" for i
    using that by (simp add: xs)
  have "xs ! 0 = dict_get d ?mn 0" using nth [of 0] le by simp
  then have lo0: "lower_truncation_loop xs t 0 0 = 0"
    using lower_truncation_loop_first [OF xne] lo by simp
  have "length xs - 1 = nat (?mx - ?mn)" using len le by simp
  then have "xs ! (length xs - 1) = dict_get d ?mx 0" using nth [of "?mx - ?mn"] le by simp
  then have hi0: "upper_truncation_loop xs t (int (length xs) - 1) 0 = int (length xs) - 1"
    using upper_truncation_loop_last [OF xne] hi by simp
  have top: "int (length xs) - 1 = ?mx - ?mn" using len le by simp
  have eq: "list_to_dictionary xs ?mn t =
      map (\<lambda>i. (i + ?mn, xs ! nat i)) (filter (\<lambda>i. 0 < xs ! nat i) [0..?mx - ?mn])"
    using hi0 by (simp add: list_to_dictionary_filter lo0 top)
  show "distinct (dict_keys (list_to_dictionary xs ?mn t))"
    unfolding eq by (rule distinct_shifted_filter) simp
  show "map_of (list_to_dictionary xs ?mn t) = map_of d"
  proof
    fix k
    show "map_of (list_to_dictionary xs ?mn t) k = map_of d k"
    proof (cases "k \<in> fst ` set d")
      case True
      then have kk: "k \<in> ?ks" by (simp add: dict_keys_def)
      then have rng: "?mn \<le> k" "k \<le> ?mx" using fin by simp_all
      then have x: "xs ! nat (k - ?mn) = dict_get d k 0" using nth [of "k - ?mn"] by simp
      have p: "0 < dict_get d k 0" using dict_get_positive [OF pos] True by simp
      obtain v where v: "map_of d k = Some v"
        using True by (cases "map_of d k") (auto simp: map_of_eq_None_iff)
      then have "dict_get d k 0 = v" by (simp add: dict_get_def)
      with x p v rng show ?thesis
        unfolding eq map_of_shifted_filter by simp
    next
      case False
      then have none: "map_of d k = None" by (simp add: map_of_eq_None_iff)
      have "\<not> (k - ?mn \<in> set [0..?mx - ?mn] \<and> 0 < xs ! nat (k - ?mn))"
      proof
        assume a: "k - ?mn \<in> set [0..?mx - ?mn] \<and> 0 < xs ! nat (k - ?mn)"
        then have "xs ! nat (k - ?mn) = dict_get d k 0" using nth [of "k - ?mn"] by simp
        with a have "0 < dict_get d k 0" by simp
        with dict_get_positive [OF pos] False show False by simp
      qed
      with none show ?thesis unfolding eq map_of_shifted_filter by simp
    qed
  qed
qed

section \<open>Convolution with the unit mass\<close>

lemma min_key_in_dict: "d \<noteq> [] \<Longrightarrow> Min (set (dict_keys d)) \<in> fst ` set d"
  using Min_in [of "set (dict_keys d)"] by (simp add: dict_keys_def)

lemma max_key_in_dict: "d \<noteq> [] \<Longrightarrow> Max (set (dict_keys d)) \<in> fst ` set d"
  using Max_in [of "set (dict_keys d)"] by (simp add: dict_keys_def)

lemma sum_list_single_index:
  "k < n \<Longrightarrow> (\<Sum>j\<leftarrow>[0..<n]. if j = k then f j else (0::real)) = f k"
  by (simp add: interv_sum_list_conv_sum_set_nat sum.delta)

lemma fftconvolve_unit_right: "xs \<noteq> [] \<Longrightarrow> fftconvolve xs [1] = xs"
proof (rule nth_equalityI)
  assume "xs \<noteq> []"
  show "length (fftconvolve xs [1]) = length xs" by (simp add: fftconvolve_def)
  fix k assume "k < length (fftconvolve xs [1])"
  then have k: "k < length xs" by (simp add: fftconvolve_def)
  have "fftconvolve xs [1] ! k =
        (\<Sum>j\<leftarrow>[0..<length xs]. if j \<le> k \<and> k - j < length [1::real] then xs ! j * [1] ! (k - j) else 0)"
    using k by (simp add: fftconvolve_def cong: if_cong)
  also have "\<dots> = (\<Sum>j\<leftarrow>[0..<length xs]. if j = k then xs ! j else 0)"
    by (rule arg_cong [where f = sum_list], rule map_cong) auto
  also have "\<dots> = xs ! k" using k by (rule sum_list_single_index)
  finally show "fftconvolve xs [1] ! k = xs ! k" .
qed

lemma fftconvolve_unit_left: "xs \<noteq> [] \<Longrightarrow> fftconvolve [1] xs = xs"
  by (rule nth_equalityI) (simp_all add: fftconvolve_def)

lemma dictionary_to_list_unit: "dictionary_to_list [(0, 1)] = Inr (0, [1])"
  by (simp add: dictionary_to_list_def dict_keys_def dict_get_def)

lemma convolve_dictionary_empty:
  "d1 = [] \<or> d2 = [] \<Longrightarrow>
   convolve_dictionary d1 d2 t = Inl (ValueError ''min() arg is an empty sequence'')"
  by (cases "d1 = []") (auto simp: convolve_dictionary_def dictionary_to_list_def Let_def)

lemma convolve_dictionary_nonempty:
  "d1 \<noteq> [] \<Longrightarrow> d2 \<noteq> [] \<Longrightarrow> \<exists>r. convolve_dictionary d1 d2 t = Inr r"
  by (simp add: convolve_dictionary_def dictionary_to_list_def Let_def)

lemma convolve_dictionary_unit_right:
  assumes "d \<noteq> []" "\<forall>(k, v)\<in>set d. 0 < v"
    and "t / 2 < dict_get d (Min (set (dict_keys d))) 0"
    and "t / 2 < dict_get d (Max (set (dict_keys d))) 0"
  shows "\<exists>r. convolve_dictionary d [(0, 1)] t = Inr r \<and> map_of r = map_of d \<and> distinct (dict_keys r)"
proof -
  define xs where "xs = map (\<lambda>i. dict_get d i 0) [Min (set (dict_keys d))..Max (set (dict_keys d))]"
  have "Min (set (dict_keys d)) \<le> Max (set (dict_keys d))"
    using assms(1) by (simp add: dict_keys_def)
  then have ne: "xs \<noteq> []" by (simp add: xs_def)
  have "convolve_dictionary d [(0, 1)] t = Inr (list_to_dictionary xs (Min (set (dict_keys d))) t)"
    using assms(1) ne
    by (simp add: convolve_dictionary_def dictionary_to_list_nonempty dictionary_to_list_unit
        fftconvolve_unit_right xs_def [symmetric])
  with unpack_pack [OF assms xs_def] show ?thesis by simp
qed

lemma convolve_dictionary_unit_left:
  assumes "d \<noteq> []" "\<forall>(k, v)\<in>set d. 0 < v"
    and "t / 2 < dict_get d (Min (set (dict_keys d))) 0"
    and "t / 2 < dict_get d (Max (set (dict_keys d))) 0"
  shows "\<exists>r. convolve_dictionary [(0, 1)] d t = Inr r \<and> map_of r = map_of d \<and> distinct (dict_keys r)"
proof -
  define xs where "xs = map (\<lambda>i. dict_get d i 0) [Min (set (dict_keys d))..Max (set (dict_keys d))]"
  have "Min (set (dict_keys d)) \<le> Max (set (dict_keys d))"
    using assms(1) by (simp add: dict_keys_def)
  then have ne: "xs \<noteq> []" by (simp add: xs_def)
  have "convolve_dictionary [(0, 1)] d t = Inr (list_to_dictionary xs (Min (set (dict_keys d))) t)"
    using assms(1) ne
    by (simp add: convolve_dictionary_def dictionary_to_list_nonempty dictionary_to_list_unit
        fftconvolve_unit_left xs_def [symmetric])
  with unpack_pack [OF assms xs_def] show ?thesis by simp
qed

section \<open>Truncation, round trip and composition\<close>

text \<open>
  Claim C7. For a list \<open>xs\<close> of nonnegative masses, any offset and a truncation
  \<open>t \<ge> 0\<close>, \<open>list_to_dictionary\<close> keeps exactly the positive entries at the indices
  \<open>lo..hi\<close>, where the entries below \<open>lo\<close> (the low end that is dropped) sum to at most
  \<open>t / 2\<close> and the entries above \<open>hi\<close> (the high end that is dropped) sum to at most
  \<open>t / 2\<close>; an entry inside \<open>lo..hi\<close> that is not kept has mass zero. In particular
  \<open>list_to_dictionary([0.2, 0.5, 0.3], 1, 0.6)\<close> is \<open>{2: 0.5}\<close>.
\<close>

theorem list_to_dictionary_truncation:
  assumes "0 \<le> t" and "\<forall>x\<in>set xs. 0 \<le> x"
  shows "(\<exists>lo hi. lo \<le> length xs \<and> - 1 \<le> hi \<and> hi < int (length xs)
            \<and> sum_list (take lo xs) \<le> t / 2
            \<and> sum_list (drop (nat (hi + 1)) xs) \<le> t / 2
            \<and> list_to_dictionary xs off t =
                map (\<lambda>i. (i + off, xs ! nat i)) (filter (\<lambda>i. 0 < xs ! nat i) [int lo..hi])
            \<and> (\<forall>i\<in>{int lo..hi}. xs ! nat i = 0 \<or> (i + off, xs ! nat i) \<in> set (list_to_dictionary xs off t)))
         \<and> list_to_dictionary [2 / 10, 5 / 10, 3 / 10] 1 (6 / 10) = [(2, 5 / 10)]"
proof -
  let ?lo = "lower_truncation_loop xs t 0 0"
  let ?hi = "upper_truncation_loop xs t (int (length xs) - 1) 0"
  have lo: "?lo \<le> length xs \<and> sum_list (take ?lo xs) \<le> t / 2"
    using lower_truncation_loop_bounds [of 0 xs 0 t] assms(1) by simp
  have hi: "- 1 \<le> ?hi \<and> ?hi \<le> int (length xs) - 1 \<and> sum_list (drop (nat (?hi + 1)) xs) \<le> t / 2"
    using upper_truncation_loop_bounds [of "int (length xs) - 1" xs 0 t] assms(1) by simp
  have eq: "list_to_dictionary xs off t =
      map (\<lambda>i. (i + off, xs ! nat i)) (filter (\<lambda>i. 0 < xs ! nat i) [int ?lo..?hi])"
    by (rule list_to_dictionary_filter)
  have kept: "\<forall>i\<in>{int ?lo..?hi}. xs ! nat i = 0 \<or> (i + off, xs ! nat i) \<in> set (list_to_dictionary xs off t)"
  proof
    fix i assume i: "i \<in> {int ?lo..?hi}"
    then have "nat i < length xs" using hi by auto
    then have "0 \<le> xs ! nat i" using assms(2) by simp
    then show "xs ! nat i = 0 \<or> (i + off, xs ! nat i) \<in> set (list_to_dictionary xs off t)"
      using i by (auto simp: eq)
  qed
  from lo hi eq kept list_to_dictionary_example show ?thesis
    by (intro conjI exI [of _ ?lo] exI [of _ ?hi]) auto
qed

text \<open>The theorem at the list \<open>[0.2, 0.5, 0.3]\<close>, offset 1 and truncation 0.6.\<close>

theorem list_to_dictionary_truncation_witness:
  "(\<exists>lo hi. lo \<le> length [2 / 10, 5 / 10, 3 / 10 :: real] \<and> - 1 \<le> hi
        \<and> hi < int (length [2 / 10, 5 / 10, 3 / 10 :: real])
        \<and> sum_list (take lo [2 / 10, 5 / 10, 3 / 10 :: real]) \<le> (6 / 10) / 2
        \<and> sum_list (drop (nat (hi + 1)) [2 / 10, 5 / 10, 3 / 10 :: real]) \<le> (6 / 10) / 2
        \<and> list_to_dictionary [2 / 10, 5 / 10, 3 / 10] 1 (6 / 10) =
            map (\<lambda>i. (i + 1, [2 / 10, 5 / 10, 3 / 10] ! nat i))
              (filter (\<lambda>i. 0 < [2 / 10, 5 / 10, 3 / 10 :: real] ! nat i) [int lo..hi]))
   \<and> list_to_dictionary [2 / 10, 5 / 10, 3 / 10] 1 (6 / 10) = [(2, 5 / 10)]"
proof -
  have t: "(0::real) \<le> 6 / 10" by simp
  have n: "\<forall>x\<in>set [2 / 10, 5 / 10, 3 / 10 :: real]. 0 \<le> x" by simp
  from list_to_dictionary_truncation [OF t n, of 1] show ?thesis by blast
qed

text \<open>
  Claim C9. For a nonempty dictionary \<open>d\<close> with distinct integer keys and strictly
  positive masses, \<open>dictionary_to_list\<close> returns a pair \<open>(off, xs)\<close>, and
  \<open>list_to_dictionary xs off 0\<close> is the same mapping as \<open>d\<close>: the same lookup function
  and the same set of items.
\<close>

theorem dictionary_round_trip:
  assumes "d \<noteq> []" and "distinct (dict_keys d)" and "\<forall>(k, v)\<in>set d. 0 < v"
  shows "\<exists>off xs. dictionary_to_list d = Inr (off, xs)
           \<and> map_of (list_to_dictionary xs off 0) = map_of d
           \<and> set (list_to_dictionary xs off 0) = set d"
proof -
  define xs where "xs = map (\<lambda>i. dict_get d i 0) [Min (set (dict_keys d))..Max (set (dict_keys d))]"
  have lo: "0 / 2 < dict_get d (Min (set (dict_keys d))) 0"
    using dict_get_positive [OF assms(3)] min_key_in_dict [OF assms(1)] by simp
  have hi: "0 / 2 < dict_get d (Max (set (dict_keys d))) 0"
    using dict_get_positive [OF assms(3)] max_key_in_dict [OF assms(1)] by simp
  note u = unpack_pack [OF assms(1) assms(3) lo hi xs_def]
  have "set (list_to_dictionary xs (Min (set (dict_keys d))) 0) = set d"
    using u assms(2) by (simp add: dict_keys_def map_of_inject_set)
  moreover have "dictionary_to_list d = Inr (Min (set (dict_keys d)), xs)"
    using assms(1) by (simp add: dictionary_to_list_nonempty xs_def)
  ultimately show ?thesis using u(1) by blast
qed

text \<open>The theorem at the dictionary \<open>{3: 1/2, 1: 1/4}\<close>.\<close>

theorem dictionary_round_trip_witness:
  "\<exists>off xs. dictionary_to_list [(3, 1 / 2), (1, 1 / 4)] = Inr (off, xs)
           \<and> map_of (list_to_dictionary xs off 0) = map_of [(3, 1 / 2), (1, 1 / 4)]
           \<and> set (list_to_dictionary xs off 0) = set [(3, 1 / 2), (1, 1 / 4)]"
proof -
  have a: "[(3::int, 1 / 2 :: real), (1, 1 / 4)] \<noteq> []" by simp
  have b: "distinct (dict_keys [(3::int, 1 / 2 :: real), (1, 1 / 4)])" by (simp add: dict_keys_def)
  have c: "\<forall>(k, v)\<in>set [(3::int, 1 / 2 :: real), (1, 1 / 4)]. 0 < v" by simp
  from dictionary_round_trip [OF a b c] show ?thesis .
qed

text \<open>
  Claim C2, amended. When \<open>p\<close> and \<open>q\<close> share \<open>value_discretization_interval\<close> and
  \<open>pessimistic_estimate\<close> and both mass functions are nonempty, \<open>compose p q t\<close> returns
  a distribution whose \<open>infinity_mass\<close> is \<open>m1 + m2 - m1 * m2\<close> in the optimistic mode
  and that quantity plus \<open>t\<close> in the pessimistic mode.
\<close>

theorem compose_infinity_mass:
  assumes "value_discretization_interval p = value_discretization_interval q"
    and "pessimistic_estimate p = pessimistic_estimate q"
    and "rounded_probability_mass_function p \<noteq> []"
    and "rounded_probability_mass_function q \<noteq> []"
  shows "\<exists>r. compose p q t = Inr r \<and>
           infinity_mass r =
             (if pessimistic_estimate p
              then infinity_mass p + infinity_mass q - infinity_mass p * infinity_mass q + t
              else infinity_mass p + infinity_mass q - infinity_mass p * infinity_mass q)"
proof -
  obtain m where "convolve_dictionary (rounded_probability_mass_function p)
                    (rounded_probability_mass_function q) t = Inr m"
    using convolve_dictionary_nonempty [OF assms(3) assms(4)] by blast
  with assms(1,2) show ?thesis by (simp add: compose_def)
qed

text \<open>The theorem at \<open>identity(1)\<close> composed with itself, truncation \<open>1/8\<close>.\<close>

theorem compose_infinity_mass_witness:
  "\<exists>r. compose (identity 1) (identity 1) (1 / 8) = Inr r \<and> infinity_mass r = 1 / 8"
proof -
  have "\<exists>r. compose (identity 1) (identity 1) (1 / 8) = Inr r \<and>
           infinity_mass r =
             (if pessimistic_estimate (identity 1)
              then infinity_mass (identity 1) + infinity_mass (identity 1)
                   - infinity_mass (identity 1) * infinity_mass (identity 1) + 1 / 8
              else infinity_mass (identity 1) + infinity_mass (identity 1)
                   - infinity_mass (identity 1) * infinity_mass (identity 1))"
    by (rule compose_infinity_mass) (simp_all add: identity_def)
  then show ?thesis by (simp add: identity_def)
qed

text \<open>
  Claim C2 as stated fails for an empty mass function: the distribution with no finite
  bucket and \<open>infinity_mass = 1\<close> shares interval and mode with \<open>identity(1)\<close>, and
  \<open>compose\<close> raises the \<open>ValueError\<close> of \<open>min\<close> on an empty dictionary instead of
  returning a distribution.
\<close>

theorem compose_empty_counterexample:
  "compose \<lparr>rounded_probability_mass_function = [], value_discretization_interval = 1,
             infinity_mass = 1, pessimistic_estimate = True\<rparr>
     (identity 1) default_tail_mass_truncation
   = Inl (ValueError ''min() arg is an empty sequence'')"
  by (simp add: compose_def identity_def convolve_dictionary_empty)

text \<open>
  Claim C8, amended. \<open>compose p q t\<close> raises if and only if \<open>p\<close> and \<open>q\<close> differ in
  \<open>value_discretization_interval\<close>, differ in \<open>pessimistic_estimate\<close>, or one of the
  two mass functions is empty; every exception it raises is a \<open>ValueError\<close>; differing
  intervals give the error about discretization intervals and, for equal intervals,
  differing modes give the error about estimation types. A raise is the value \<open>Inl\<close>,
  so it carries no result, and the operands are values that nothing changes.
\<close>

theorem compose_raises_iff:
  "((\<exists>e. compose p q t = Inl e) \<longleftrightarrow>
      (value_discretization_interval p \<noteq> value_discretization_interval q
       \<or> pessimistic_estimate p \<noteq> pessimistic_estimate q
       \<or> rounded_probability_mass_function p = []
       \<or> rounded_probability_mass_function q = []))
   \<and> (\<forall>e. compose p q t = Inl e \<longrightarrow> (\<exists>msg. e = ValueError msg))
   \<and> (value_discretization_interval p \<noteq> value_discretization_interval q \<longrightarrow>
        compose p q t = Inl (ValueError ''Discretization intervals are different''))
   \<and> (value_discretization_interval p = value_discretization_interval q
        \<and> pessimistic_estimate p \<noteq> pessimistic_estimate q \<longrightarrow>
        compose p q t = Inl (ValueError ''Estimation types are different''))"
proof (cases "rounded_probability_mass_function p = [] \<or> rounded_probability_mass_function q = []")
  case True
  from convolve_dictionary_empty [OF True, of t] True show ?thesis
    by (auto simp: compose_def)
next
  case False
  then obtain m where "convolve_dictionary (rounded_probability_mass_function p)
                    (rounded_probability_mass_function q) t = Inr m"
    using convolve_dictionary_nonempty by blast
  with False show ?thesis by (auto simp: compose_def)
qed

text \<open>The theorem at \<open>identity(1)\<close> and \<open>identity(2)\<close>.\<close>

theorem compose_raises_iff_witness:
  "compose (identity 1) (identity 2) 0 = Inl (ValueError ''Discretization intervals are different'')"
  using compose_raises_iff [of "identity 1" "identity 2" 0] by (simp add: identity_def)

text \<open>
  Claim C8 as stated fails in the direction "only if": two equal distributions with an
  empty mass function do not differ in interval or mode, and \<open>compose\<close> raises
  \<open>ValueError\<close>.
\<close>

theorem compose_same_parameters_counterexample:
  "compose \<lparr>rounded_probability_mass_function = [], value_discretization_interval = 1,
             infinity_mass = 1, pessimistic_estimate = True\<rparr>
     \<lparr>rounded_probability_mass_function = [], value_discretization_interval = 1,
             infinity_mass = 1, pessimistic_estimate = True\<rparr> default_tail_mass_truncation
   = Inl (ValueError ''min() arg is an empty sequence'')"
  by (simp add: compose_def convolve_dictionary_empty)

text \<open>
  Claim C5, amended. Let \<open>p\<close> be pessimistic with a nonempty mass function whose masses
  are strictly positive and whose lowest and highest buckets each hold more than
  \<open>t / 2\<close>. Composing \<open>p\<close> with \<open>identity(p.value_discretization_interval)\<close>, in either
  order, with truncation \<open>t\<close> returns a distribution with the same mass function as a
  mapping, the same interval and mode, and \<open>infinity_mass = p.infinity_mass + t\<close>; with
  \<open>t = 0\<close> all of them are those of \<open>p\<close>.
\<close>

theorem compose_identity:
  assumes "pessimistic_estimate p"
    and "rounded_probability_mass_function p \<noteq> []"
    and "\<forall>(k, v)\<in>set (rounded_probability_mass_function p). 0 < v"
    and "t / 2 < dict_get (rounded_probability_mass_function p)
                   (Min (set (dict_keys (rounded_probability_mass_function p)))) 0"
    and "t / 2 < dict_get (rounded_probability_mass_function p)
                   (Max (set (dict_keys (rounded_probability_mass_function p)))) 0"
  shows "(\<exists>r. compose p (identity (value_discretization_interval p)) t = Inr r
            \<and> map_of (rounded_probability_mass_function r) = map_of (rounded_probability_mass_function p)
            \<and> distinct (dict_keys (rounded_probability_mass_function r))
            \<and> value_discretization_interval r = value_discretization_interval p
            \<and> pessimistic_estimate r = pessimistic_estimate p
            \<and> infinity_mass r = infinity_mass p + t)
       \<and> (\<exists>r. compose (identity (value_discretization_interval p)) p t = Inr r
            \<and> map_of (rounded_probability_mass_function r) = map_of (rounded_probability_mass_function p)
            \<and> distinct (dict_keys (rounded_probability_mass_function r))
            \<and> value_discretization_interval r = value_discretization_interval p
            \<and> pessimistic_estimate r = pessimistic_estimate p
            \<and> infinity_mass r = infinity_mass p + t)"
proof -
  obtain r1 where r1: "convolve_dictionary (rounded_probability_mass_function p) [(0, 1)] t = Inr r1"
     "map_of r1 = map_of (rounded_probability_mass_function p)" "distinct (dict_keys r1)"
    using convolve_dictionary_unit_right [OF assms(2-5)] by blast
  obtain r2 where r2: "convolve_dictionary [(0, 1)] (rounded_probability_mass_function p) t = Inr r2"
     "map_of r2 = map_of (rounded_probability_mass_function p)" "distinct (dict_keys r2)"
    using convolve_dictionary_unit_left [OF assms(2-5)] by blast
  from r1 r2 assms(1) show ?thesis
    by (simp add: compose_def identity_def)
qed

text \<open>
  The theorem at the distribution \<open>{2: 1/2, -1: 1/4}\<close> with \<open>infinity_mass = 1/4\<close> and
  truncation 0.
\<close>

theorem compose_identity_witness:
  "\<exists>r. compose \<lparr>rounded_probability_mass_function = [(2, 1 / 2), (-1, 1 / 4)],
                 value_discretization_interval = 1, infinity_mass = 1 / 4,
                 pessimistic_estimate = True\<rparr> (identity 1) 0 = Inr r
       \<and> map_of (rounded_probability_mass_function r) = map_of [(2, 1 / 2), (-1, 1 / 4)]
       \<and> value_discretization_interval r = 1
       \<and> infinity_mass r = 1 / 4"
proof -
  let ?p = "\<lparr>rounded_probability_mass_function = [(2, 1 / 2), (-1, 1 / 4)],
                 value_discretization_interval = 1, infinity_mass = 1 / 4,
                 pessimistic_estimate = True\<rparr>"
  have a: "pessimistic_estimate ?p" by simp
  have b: "rounded_probability_mass_function ?p \<noteq> []" by simp
  have c: "\<forall>(k, v)\<in>set (rounded_probability_mass_function ?p). 0 < v" by simp
  have d: "0 / 2 < dict_get (rounded_probability_mass_function ?p)
                   (Min (set (dict_keys (rounded_probability_mass_function ?p)))) 0"
    by (simp add: dict_keys_def dict_get_def)
  have e: "0 / 2 < dict_get (rounded_probability_mass_function ?p)
                   (Max (set (dict_keys (rounded_probability_mass_function ?p)))) 0"
    by (simp add: dict_keys_def dict_get_def)
  from compose_identity [OF a b c d e]
  have "\<exists>r. compose ?p (identity (value_discretization_interval ?p)) 0 = Inr r
       \<and> map_of (rounded_probability_mass_function r) = map_of (rounded_probability_mass_function ?p)
       \<and> value_discretization_interval r = value_discretization_interval ?p
       \<and> infinity_mass r = infinity_mass ?p + 0"
    by blast
  then show ?thesis by simp
qed

text \<open>
  Claim C5 as stated fails with the default truncation \<open>1e-15\<close>: for a pessimistic
  distribution the composition with \<open>identity(1)\<close> has \<open>infinity_mass = 1e-15\<close> where
  the operand has 0, and an optimistic distribution cannot be composed with
  \<open>identity(1)\<close>, which is pessimistic.
\<close>

theorem compose_identity_counterexample:
  "compose \<lparr>rounded_probability_mass_function = [(0, 1 / 2), (1, 1 / 2)],
             value_discretization_interval = 1, infinity_mass = 0,
             pessimistic_estimate = True\<rparr> (identity 1) default_tail_mass_truncation
   = Inr \<lparr>rounded_probability_mass_function = [(0, 1 / 2), (1, 1 / 2)],
           value_discretization_interval = 1, infinity_mass = 1 / 10 ^ 15,
           pessimistic_estimate = True\<rparr>
   \<and> compose \<lparr>rounded_probability_mass_function = [(0, 1 / 2), (1, 1 / 2)],
             value_discretization_interval = 1, infinity_mass = 0,
             pessimistic_estimate = False\<rparr> (identity 1) default_tail_mass_truncation
   = Inl (ValueError ''Estimation types are different'')"
  by (simp add: compose_def identity_def convolve_dictionary_def dictionary_to_list_def
      dict_keys_def dict_get_def fftconvolve_def list_to_dictionary_def dict_set_def
      default_tail_mass_truncation_def lower_truncation_loop.simps upper_truncation_loop.simps
      upto.simps Let_def)

section \<open>The queries\<close>




section \<open>Stored masses\<close>





















text \<open>
  Likewise \<open>from_privacy_parameters\<close> with \<open>delta = 1\<close> stores two masses zero.
\<close>

lemma from_privacy_parameters_delta_one:
  "from_privacy_parameters \<lparr>epsilon = 1, delta = 1\<rparr> 1 =
     Inr \<lparr>rounded_probability_mass_function = [(1, 0), (- 1, 0)],
          value_discretization_interval = 1, infinity_mass = 1, pessimistic_estimate = True\<rparr>"
proof -
  have c: "\<lceil>- 1 :: real\<rceil> = - 1" by (rule ceiling_unique) simp_all
  show ?thesis by (simp add: from_privacy_parameters_def dict_set_def c)
qed


section \<open>Self-convolution\<close>

lemma next_fast_len_two: "next_fast_len 2 = 2"
  by (simp add: next_fast_len_def is_fast_len_def strip_factor.simps upt_rec)

lemma find_Some_member: "find P xs = Some x \<Longrightarrow> x \<in> set xs"
  by (induction xs) (auto split: if_splits)

lemma next_fast_len_ge: "target \<le> next_fast_len target"
proof (cases "find is_fast_len [target..<2 * target + 1]")
  case None
  then show ?thesis by (simp add: next_fast_len_def)
next
  case (Some m)
  then have "m \<in> set [target..<2 * target + 1]"
    by (rule find_Some_member)
  then have "target \<le> m" by auto
  with Some show ?thesis by (simp add: next_fast_len_def)
qed

lemma length_cyclic_power: "0 < n \<Longrightarrow> length (cyclic_power n xs k) = n"
  by (cases k) (simp_all add: resize_def cyclic_convolve_def)

lemma self_convolve_length:
  assumes "self_convolve xs n = Inr ys"
  shows "int (length ys) = n * int (length xs) - 1"
proof -
  let ?len = "n * int (length xs) - 1"
  have ge: "1 \<le> ?len" using assms by (auto simp: self_convolve_def Let_def split: if_splits)
  then have "0 < next_fast_len (nat ?len)" "nat ?len \<le> next_fast_len (nat ?len)"
    using next_fast_len_ge [of "nat ?len"] by simp_all
  moreover have "ys = take (nat ?len)
      (cyclic_power (next_fast_len (nat ?len)) (resize (next_fast_len (nat ?len)) xs) (nat n))"
    using assms ge by (auto simp: self_convolve_def Let_def split: if_splits)
  ultimately show ?thesis using ge by (simp add: length_cyclic_power)
qed

text \<open>
  Claim C4 fails on the code. \<open>self_convolve\<close> cuts its result to
  \<open>num_times * len(input_list) - 1\<close> entries, which is the length
  \<open>num_times * (len(input_list) - 1) + 1\<close> of the self-convolution only for
  \<open>num_times = 2\<close>. For \<open>num_times = 1\<close> the last entry of the input is lost; for
  \<open>num_times = 3\<close> a zero is appended. (For \<open>num_times = 2\<close> the test of the
  repository, \<open>[9, 30, 67, 70, 49]\<close>, is what the model computes.)
\<close>

theorem self_convolve_output_length_examples:
  "self_convolve [3, 5, 7] 1 = Inr [3, 5]
   \<and> self_convolve [3, 5, 7] 3 = Inr [27, 135, 414, 755, 966, 735, 343, 0]
   \<and> self_convolve [3, 5, 7] 2 = Inr [9, 30, 67, 70, 49]"
  by code_simp

section \<open>The monotone function inverter\<close>











end
